theory Spec2Isabelle
  imports Main "HOL-Library.Word" "HOL-Library.AList"
begin

section \<open>The credential and session store of \<open>store.ts\<close>\<close>

subsection \<open>Values\<close>

text \<open>
  An \<open>ArrayBuffer\<close> is its sequence of bytes; a \<open>Uint8Array\<close> element is an
  8-bit word. A JavaScript string is the list of its code units; every string this
  development builds has code units below 256, so \<open>string\<close> (a list of 8-bit
  characters) holds them.
\<close>

type_synonym byte = "8 word"
type_synonym bytes = "byte list"

text \<open>
  An argument whose TypeScript type is \<open>T\<close> can still be \<open>null\<close> or \<open>undefined\<close> at
  run time; the validators of the store test for exactly that.
\<close>

datatype 'a nullable = Undefined | Null | Val 'a

text \<open>
  The run-time values of \<open>StoreValue\<close>: strings, numbers, array buffers and plain
  objects (key pairs, pre-keys: a list of property names with their values), and the two
  nullish values. Numbers are the integers and \<open>NaN\<close>; every other double behaves, for
  the truthiness and \<open>typeof\<close> tests made here, like a non-zero integer.
\<close>

datatype js_value =
    VUndefined
  | VNull
  | VNum int
  | VNaN
  | VStr string
  | VBuf bytes
  | VObj "(string \<times> js_value) list"

datatype js_type = TUndefined | TObject | TNumber | TString

fun typeof :: "js_value \<Rightarrow> js_type" where
  "typeof VUndefined = TUndefined"
| "typeof VNull = TObject"
| "typeof (VNum n) = TNumber"
| "typeof VNaN = TNumber"
| "typeof (VStr s) = TString"
| "typeof (VBuf b) = TObject"
| "typeof (VObj fs) = TObject"

text \<open>\<open>truthy v\<close> is \<open>!!v\<close>: the falsy values are \<open>undefined\<close>, \<open>null\<close>, \<open>0\<close>, \<open>NaN\<close>
  and the empty string.\<close>

fun truthy :: "js_value \<Rightarrow> bool" where
  "truthy VUndefined = False"
| "truthy VNull = False"
| "truthy (VNum n) = (n \<noteq> 0)"
| "truthy VNaN = False"
| "truthy (VStr s) = (s \<noteq> [])"
| "truthy (VBuf b) = True"
| "truthy (VObj fs) = True"

text \<open>\<open>has_property v p\<close> is \<open>p in v\<close> for an object \<open>v\<close>; \<open>get_property v p\<close> is
  \<open>v.p\<close>, \<open>undefined\<close> when the property is missing. The code asks for
  \<open>byteLength\<close>, \<open>privKey\<close> and \<open>pubKey\<close> only; of an array buffer only
  \<open>byteLength\<close> is kept, of a plain object its own properties.\<close>

fun has_property :: "js_value \<Rightarrow> string \<Rightarrow> bool" where
  "has_property (VBuf b) p = (p = ''byteLength'')"
| "has_property (VObj fs) p = (map_of fs p \<noteq> None)"
| "has_property v p = False"

fun get_property :: "js_value \<Rightarrow> string \<Rightarrow> js_value" where
  "get_property (VBuf b) p = (if p = ''byteLength'' then VNum (int (length b)) else VUndefined)"
| "get_property (VObj fs) p = (case map_of fs p of Some v \<Rightarrow> v | None \<Rightarrow> VUndefined)"
| "get_property v p = VUndefined"

fun instanceof_ArrayBuffer :: "js_value \<Rightarrow> bool" where
  "instanceof_ArrayBuffer (VBuf b) = True"
| "instanceof_ArrayBuffer v = False"

definition isArrayBuffer :: "js_value \<Rightarrow> bool" where
  "isArrayBuffer thing \<longleftrightarrow>
     truthy thing \<and> typeof thing = TObject \<and> has_property thing ''byteLength''
       \<and> instanceof_ArrayBuffer thing"

definition isKeyPairType :: "js_value \<Rightarrow> bool" where
  "isKeyPairType kp =
     (if \<not> truthy kp \<or> typeof kp \<noteq> TObject then False
      else isArrayBuffer (get_property kp ''privKey'') \<and> isArrayBuffer (get_property kp ''pubKey''))"

subsection \<open>The byte-to-string codec\<close>

definition chunkSize :: nat where
  "chunkSize = 1024"

text \<open>\<open>slice arr b e\<close> is \<open>arr.slice(b, e)\<close> for \<open>0 \<le> b \<le> e\<close>: the elements from index
  \<open>b\<close> up to, not including, \<open>e\<close>, cut off at the end of the array.\<close>

definition slice :: "'a list \<Rightarrow> nat \<Rightarrow> nat \<Rightarrow> 'a list" where
  "slice arr b e = take (e - b) (drop b arr)"

text \<open>\<open>String.fromCharCode(...chunk)\<close>: one code unit per byte, the byte's value.\<close>

definition fromCharCode :: "bytes \<Rightarrow> string" where
  "fromCharCode chunk = map (\<lambda>b. char_of (unat b)) chunk"

text \<open>The loop of \<open>uint8ArrayToString\<close>, with its counter \<open>i\<close> and the array \<open>parts\<close>
  it pushes to.\<close>

function uint8ArrayToString_loop :: "bytes \<Rightarrow> nat \<Rightarrow> string list \<Rightarrow> string list" where
  "uint8ArrayToString_loop arr i parts =
     (if i < length arr
      then uint8ArrayToString_loop arr (i + chunkSize)
             (parts @ [fromCharCode (slice arr i (i + chunkSize))])
      else parts)"
  by pat_completeness auto
termination
  by (relation "measure (\<lambda>(arr, i, parts). length arr - i)") (auto simp: chunkSize_def)

declare uint8ArrayToString_loop.simps [simp del]

definition uint8ArrayToString_parts :: "bytes \<Rightarrow> string list" where
  "uint8ArrayToString_parts arr = uint8ArrayToString_loop arr 0 []"

definition uint8ArrayToString :: "bytes \<Rightarrow> string" where
  "uint8ArrayToString arr =
     (if length arr = 0 then [] else concat (uint8ArrayToString_parts arr))"

text \<open>\<open>new Uint8Array(b)\<close> is a byte view of the buffer \<open>b\<close>; of a nullish argument it is
  the empty array.\<close>

fun new_Uint8Array :: "bytes nullable \<Rightarrow> bytes" where
  "new_Uint8Array (Val b) = b"
| "new_Uint8Array Undefined = []"
| "new_Uint8Array Null = []"

definition arrayBufferToString :: "bytes nullable \<Rightarrow> string" where
  "arrayBufferToString b = uint8ArrayToString (new_Uint8Array b)"

text \<open>The decoder the specification speaks of (the source has none): each character
  back to its code, \<open>s.charCodeAt(i)\<close> at every position.\<close>

definition charCodeAt :: "string \<Rightarrow> nat \<Rightarrow> nat" where
  "charCodeAt s i = of_char (s ! i)"

definition spec_stringToBytes :: "string \<Rightarrow> bytes" where
  "spec_stringToBytes s = map (\<lambda>c. of_nat (of_char c)) s"

subsection \<open>Errors\<close>

text \<open>
  The store throws plain \<open>Error\<close> objects; they are named here after the taxonomy of the
  specification. \<open>InvalidArgument\<close> is thrown by the two validators (\<open>Key cannot be null
  or undefined\<close>, \<open>Key and value cannot be null or undefined\<close>); \<open>CorruptState\<close> by
  the typed reads (\<open>... has invalid format\<close>, \<open>... is not a number\<close>, \<open>... must
  be a string\<close>); \<open>InvalidAddress\<close> is an exception of the library's address parser.
\<close>

datatype error = InvalidArgument | CorruptState | InvalidAddress

subsection \<open>The map behind the store\<close>

text \<open>
  \<open>_store\<close> is a \<open>Map\<close>: its entries in insertion order, one per key.
  \<open>Map.set\<close> replaces the value of a key that is present, in place, and appends a new
  key at the end (\<open>AList.update\<close>); \<open>Map.delete\<close> drops the entry of the key
  (\<open>AList.delete\<close>).
\<close>

type_synonym store = "(string \<times> js_value) list"

definition Map_has :: "store \<Rightarrow> string \<Rightarrow> bool" where
  "Map_has s k \<longleftrightarrow> map_of s k \<noteq> None"

definition Map_get :: "store \<Rightarrow> string \<Rightarrow> js_value" where
  "Map_get s k = (case map_of s k of Some v \<Rightarrow> v | None \<Rightarrow> VUndefined)"

definition Map_set :: "store \<Rightarrow> string \<Rightarrow> js_value \<Rightarrow> store" where
  "Map_set s k v = AList.update k v s"

definition Map_delete :: "store \<Rightarrow> string \<Rightarrow> store" where
  "Map_delete s k = AList.delete k s"

definition PREKEY :: string where
  "PREKEY = ''Sylens-KeypreKey''"

definition SIGNED_KEY :: string where
  "SIGNED_KEY = ''Sylens-KeysignedKey''"

definition IDENTITY :: string where
  "IDENTITY = ''identityKey''"

definition SESSION :: string where
  "SESSION = ''session''"

subsection \<open>Conversions to string\<close>

text \<open>\<open>to_string k\<close> is what string concatenation and a template literal make of a
  string argument that may be nullish.\<close>

fun to_string :: "string nullable \<Rightarrow> string" where
  "to_string (Val k) = k"
| "to_string Null = ''null''"
| "to_string Undefined = ''undefined''"

text \<open>A key id is a number or a string. Numeric ids are integers of magnitude below
  \<open>10\<^sup>2\<^sup>1\<close>, which a template literal renders in plain decimal digits.\<close>

datatype key_id = NumId int | StrId string

fun digits :: "nat \<Rightarrow> string" where
  "digits n =
     (if n < 10 then [''0123456789'' ! n] else digits (n div 10) @ [''0123456789'' ! (n mod 10)])"

declare digits.simps [simp del]

definition number_to_string :: "int \<Rightarrow> string" where
  "number_to_string n = (if n < 0 then CHR ''-'' # digits (nat (- n)) else digits (nat n))"

fun key_id_to_string :: "key_id \<Rightarrow> string" where
  "key_id_to_string (NumId n) = number_to_string n"
| "key_id_to_string (StrId k) = k"

text \<open>\<open>key.startsWith(p)\<close>.\<close>

definition startsWith :: "string \<Rightarrow> string \<Rightarrow> bool" where
  "startsWith key p \<longleftrightarrow> take (length p) key = p"

subsection \<open>The primitives\<close>

text \<open>\<open>x == null\<close> holds of \<open>null\<close> and of \<open>undefined\<close>.\<close>

fun is_null :: "'a nullable \<Rightarrow> bool" where
  "is_null (Val x) = False"
| "is_null Null = True"
| "is_null Undefined = True"

fun is_null_value :: "js_value \<Rightarrow> bool" where
  "is_null_value VUndefined = True"
| "is_null_value VNull = True"
| "is_null_value v = False"

definition validateKey :: "string nullable \<Rightarrow> error + unit" where
  "validateKey key = (if is_null key then Inl InvalidArgument else Inr ())"

definition validateKeyValue :: "string nullable \<Rightarrow> js_value \<Rightarrow> error + unit" where
  "validateKeyValue key v =
     (if is_null key \<or> is_null_value v then Inl InvalidArgument else Inr ())"

text \<open>
  A method that changes the store returns its outcome together with the store it leaves
  behind, also when it throws. \<open>get\<close> changes nothing and returns its outcome only.
\<close>

definition get :: "string nullable \<Rightarrow> js_value \<Rightarrow> store \<Rightarrow> error + js_value" where
  "get key defaultValue s =
     (case validateKey key of
        Inl e \<Rightarrow> Inl e
      | Inr _ \<Rightarrow>
          Inr (if Map_has s (to_string key) then Map_get s (to_string key) else defaultValue))"

definition remove :: "string nullable \<Rightarrow> store \<Rightarrow> (error + unit) \<times> store" where
  "remove key s =
     (case validateKey key of
        Inl e \<Rightarrow> (Inl e, s)
      | Inr _ \<Rightarrow> (Inr (), Map_delete s (to_string key)))"

definition put :: "string nullable \<Rightarrow> js_value \<Rightarrow> store \<Rightarrow> (error + unit) \<times> store" where
  "put key v s =
     (case validateKeyValue key v of
        Inl e \<Rightarrow> (Inl e, s)
      | Inr _ \<Rightarrow> (Inr (), Map_set s (to_string key) v))"

subsection \<open>The typed reads\<close>

definition getIdentityKeyPair :: "store \<Rightarrow> error + js_value" where
  "getIdentityKeyPair s =
     (case get (Val IDENTITY) VUndefined s of
        Inl e \<Rightarrow> Inl e
      | Inr kp \<Rightarrow>
          if \<not> truthy kp then Inr VUndefined
          else if isKeyPairType kp then Inr kp
          else Inl CorruptState)"

definition getLocalRegistrationId :: "store \<Rightarrow> error + js_value" where
  "getLocalRegistrationId s =
     (case get (Val ''registrationId'') VUndefined s of
        Inl e \<Rightarrow> Inl e
      | Inr rid \<Rightarrow>
          if typeof rid = TNumber \<or> typeof rid = TUndefined then Inr rid
          else Inl CorruptState)"

definition loadPreKey :: "key_id \<Rightarrow> store \<Rightarrow> error + js_value" where
  "loadPreKey keyId s =
     (case get (Val (PREKEY @ key_id_to_string keyId)) VUndefined s of
        Inl e \<Rightarrow> Inl e
      | Inr res \<Rightarrow>
          if \<not> truthy res then Inr VUndefined
          else if isKeyPairType res then Inr res
          else Inl CorruptState)"

definition loadSession :: "string nullable \<Rightarrow> store \<Rightarrow> error + js_value" where
  "loadSession identifier s =
     (case get (Val (SESSION @ to_string identifier)) VUndefined s of
        Inl e \<Rightarrow> Inl e
      | Inr rec \<Rightarrow>
          if typeof rec = TString \<or> typeof rec = TUndefined then Inr rec
          else Inl CorruptState)"

definition loadSignedPreKey :: "key_id \<Rightarrow> store \<Rightarrow> error + js_value" where
  "loadSignedPreKey keyId s =
     (case get (Val (SIGNED_KEY @ key_id_to_string keyId)) VUndefined s of
        Inl e \<Rightarrow> Inl e
      | Inr res \<Rightarrow>
          if \<not> truthy res then Inr VUndefined
          else if isKeyPairType res then Inr res
          else Inl CorruptState)"

definition loadIdentityKey :: "string nullable \<Rightarrow> store \<Rightarrow> error + js_value" where
  "loadIdentityKey identifier s =
     (case validateKey identifier of
        Inl e \<Rightarrow> Inl e
      | Inr _ \<Rightarrow>
          (case get (Val (IDENTITY @ to_string identifier)) VUndefined s of
             Inl e \<Rightarrow> Inl e
           | Inr key \<Rightarrow>
               if \<not> truthy key then Inr VUndefined
               else if isArrayBuffer key then Inr key
               else Inl CorruptState))"

subsection \<open>Identity trust\<close>

datatype direction = SENDING | RECEIVING

text \<open>An argument of type \<open>ArrayBuffer\<close> as a store value, and a store value cast to
  \<open>ArrayBuffer\<close>; the cast is applied only to values that passed \<open>isArrayBuffer\<close>.\<close>

fun buffer_value :: "bytes nullable \<Rightarrow> js_value" where
  "buffer_value (Val b) = VBuf b"
| "buffer_value Null = VNull"
| "buffer_value Undefined = VUndefined"

fun as_ArrayBuffer :: "js_value \<Rightarrow> bytes nullable" where
  "as_ArrayBuffer (VBuf b) = Val b"
| "as_ArrayBuffer VNull = Null"
| "as_ArrayBuffer v = Undefined"

definition isTrustedIdentity ::
  "string nullable \<Rightarrow> bytes nullable \<Rightarrow> direction \<Rightarrow> store \<Rightarrow> (error + bool) \<times> store" where
  "isTrustedIdentity identifier identityKey unused_direction s =
     (case remove (Val (IDENTITY @ to_string identifier)) s of
        (Inl e, s1) \<Rightarrow> (Inl e, s1)
      | (Inr _, s1) \<Rightarrow>
          (case validateKey identifier of
             Inl e \<Rightarrow> (Inl e, s1)
           | Inr _ \<Rightarrow>
               (case get (Val (IDENTITY @ to_string identifier)) VUndefined s1 of
                  Inl e \<Rightarrow> (Inl e, s1)
                | Inr trusted \<Rightarrow>
                    if \<not> truthy trusted then (Inr True, s1)
                    else if \<not> isArrayBuffer trusted then (Inl CorruptState, s1)
                    else (Inr (arrayBufferToString identityKey
                                 = arrayBufferToString (as_ArrayBuffer trusted)), s1))))"

text \<open>
  \<open>saveIdentity\<close> parses the identifier with \<open>SignalProtocolAddress.fromString\<close> of the
  external library and keys the entry by \<open>address.getName()\<close>. The library is not part of
  this repository, so the composition of the two calls is a parameter
  \<open>fromString_getName\<close>: the name of the parsed address, or the exception of the parser.
\<close>

definition saveIdentity ::
  "(string \<Rightarrow> error + string) \<Rightarrow> string nullable \<Rightarrow> bytes nullable \<Rightarrow> store
     \<Rightarrow> (error + bool) \<times> store" where
  "saveIdentity fromString_getName identifier identityKey s =
     (case validateKeyValue identifier (buffer_value identityKey) of
        Inl e \<Rightarrow> (Inl e, s)
      | Inr _ \<Rightarrow>
          (case fromString_getName (to_string identifier) of
             Inl e \<Rightarrow> (Inl e, s)
           | Inr name \<Rightarrow>
               (case get (Val (IDENTITY @ name)) VUndefined s of
                  Inl e \<Rightarrow> (Inl e, s)
                | Inr existing \<Rightarrow>
                    if truthy existing \<and> \<not> isArrayBuffer existing then (Inl CorruptState, s)
                    else
                      (case put (Val (IDENTITY @ name)) (buffer_value identityKey) s of
                         (Inl e, s1) \<Rightarrow> (Inl e, s1)
                       | (Inr _, s1) \<Rightarrow>
                           (Inr (truthy existing
                                 \<and> arrayBufferToString identityKey
                                     \<noteq> arrayBufferToString (as_ArrayBuffer existing)), s1)))))"

text \<open>
  Modelled from the spec: the address parser of the external library, which the
  specification mentions only as deriving an address name from the identifier. The
  callers in this repository build the identifier as \<open>name.deviceId\<close>
  (\<open>new SignalProtocolAddress(userId, 1).toString()\<close>); this parser takes the name to be
  the text before the first dot and rejects an identifier without a dot. It serves as the
  concrete parser in the examples; the theorems hold for every parser.
\<close>

definition address_name :: "string \<Rightarrow> error + string" where
  "address_name identifier =
     (if CHR ''.'' \<in> set identifier then Inr (takeWhile (\<lambda>c. c \<noteq> CHR ''.'') identifier)
      else Inl InvalidAddress)"

subsection \<open>The typed writes and removals\<close>

definition storeSession :: "string nullable \<Rightarrow> js_value \<Rightarrow> store \<Rightarrow> (error + unit) \<times> store" where
  "storeSession identifier record s = put (Val (SESSION @ to_string identifier)) record s"

definition storePreKey :: "key_id \<Rightarrow> js_value \<Rightarrow> store \<Rightarrow> (error + unit) \<times> store" where
  "storePreKey keyId keyPair s = put (Val (PREKEY @ key_id_to_string keyId)) keyPair s"

definition storeSignedPreKey :: "key_id \<Rightarrow> js_value \<Rightarrow> store \<Rightarrow> (error + unit) \<times> store" where
  "storeSignedPreKey keyId keyPair s = put (Val (SIGNED_KEY @ key_id_to_string keyId)) keyPair s"

definition removePreKey :: "key_id \<Rightarrow> store \<Rightarrow> (error + unit) \<times> store" where
  "removePreKey keyId s = remove (Val (PREKEY @ key_id_to_string keyId)) s"

definition removeSignedPreKey :: "key_id \<Rightarrow> store \<Rightarrow> (error + unit) \<times> store" where
  "removeSignedPreKey keyId s = remove (Val (SIGNED_KEY @ key_id_to_string keyId)) s"

definition removeSession :: "string nullable \<Rightarrow> store \<Rightarrow> (error + unit) \<times> store" where
  "removeSession identifier s = remove (Val (SESSION @ to_string identifier)) s"

text \<open>
  \<open>removeAllSessions\<close> walks the entries of the map in order and deletes from the map
  each one whose key starts with the prefix. Deleting the entry under the iterator does
  not disturb the walk, so the entries visited are those the map had at the start.
\<close>

fun removeAllSessions_loop :: "(string \<times> js_value) list \<Rightarrow> string \<Rightarrow> store \<Rightarrow> store" where
  "removeAllSessions_loop [] sessionPrefix s = s"
| "removeAllSessions_loop ((key, v) # entries) sessionPrefix s =
     removeAllSessions_loop entries sessionPrefix
       (if startsWith key sessionPrefix then Map_delete s key else s)"

definition removeAllSessions :: "string nullable \<Rightarrow> store \<Rightarrow> store" where
  "removeAllSessions identifier s = removeAllSessions_loop s (SESSION @ to_string identifier) s"

section \<open>Properties of the codec\<close>

lemma loop_concat:
  "concat (uint8ArrayToString_loop arr i parts) = concat parts @ fromCharCode (drop i arr)"
proof (induction arr i parts rule: uint8ArrayToString_loop.induct)
  case (1 arr i parts)
  show ?case
  proof (cases "i < length arr")
    case True
    have split: "take chunkSize (drop i arr) @ drop (i + chunkSize) arr = drop i arr"
      by (metis add.commute append_take_drop_id drop_drop)
    have "concat (uint8ArrayToString_loop arr i parts)
          = concat (parts @ [fromCharCode (slice arr i (i + chunkSize))])
            @ fromCharCode (drop (i + chunkSize) arr)"
      using True "1.IH" by (subst uint8ArrayToString_loop.simps) simp
    also have "\<dots> = concat parts
          @ fromCharCode (take chunkSize (drop i arr) @ drop (i + chunkSize) arr)"
      by (simp add: slice_def fromCharCode_def)
    finally show ?thesis by (simp only: split)
  next
    case False
    then show ?thesis
      by (subst uint8ArrayToString_loop.simps) (simp add: fromCharCode_def)
  qed
qed

lemma loop_bounded:
  "\<forall>p \<in> set parts. length p \<le> chunkSize \<Longrightarrow>
   \<forall>p \<in> set (uint8ArrayToString_loop arr i parts). length p \<le> chunkSize"
proof (induction arr i parts rule: uint8ArrayToString_loop.induct)
  case (1 arr i parts)
  show ?case
  proof (cases "i < length arr")
    case True
    have "\<forall>p \<in> set (parts @ [fromCharCode (slice arr i (i + chunkSize))]). length p \<le> chunkSize"
      using "1.prems" by (auto simp: slice_def fromCharCode_def)
    from "1.IH" [OF True this] True show ?thesis
      by (subst uint8ArrayToString_loop.simps) simp
  next
    case False
    with "1.prems" show ?thesis
      by (subst uint8ArrayToString_loop.simps) simp
  qed
qed

lemma uint8ArrayToString_eq: "uint8ArrayToString arr = fromCharCode arr"
  by (simp add: uint8ArrayToString_def uint8ArrayToString_parts_def loop_concat fromCharCode_def)

lemma byte_of_char_of: "(of_nat (of_char (char_of (unat b))) :: byte) = b"
proof -
  have "unat b < 256"
    using unsigned_less [of b] by simp
  then have "(of_char (char_of (unat b)) :: nat) = unat b"
    by simp
  then show ?thesis by simp
qed

lemma stringToBytes_fromCharCode: "spec_stringToBytes (fromCharCode arr) = arr"
proof -
  have "map ((\<lambda>c. of_nat (of_char c)) \<circ> (\<lambda>b. char_of (unat b))) arr = map (\<lambda>b. b) arr"
    by (rule map_cong [OF refl]) (simp only: comp_def byte_of_char_of)
  then show ?thesis
    by (simp add: spec_stringToBytes_def fromCharCode_def)
qed

lemma uint8ArrayToString_inj:
  "uint8ArrayToString a = uint8ArrayToString b \<longleftrightarrow> a = b"
  by (metis stringToBytes_fromCharCode uint8ArrayToString_eq)

text \<open>
  C8. The codec is a lossless one-to-one mapping made in chunks of bounded size: for every
  byte array the parts pushed by the loop have at most 1024 characters each, the string
  returned has the array's length, its character code at each position is the byte at
  that position, and reading the codes back gives the original bytes.
\<close>

theorem uint8ArrayToString_lossless:
  "(\<forall>p \<in> set (uint8ArrayToString_parts arr). length p \<le> 1024)
   \<and> length (uint8ArrayToString arr) = length arr
   \<and> (\<forall>i < length arr. charCodeAt (uint8ArrayToString arr) i = unat (arr ! i))
   \<and> spec_stringToBytes (uint8ArrayToString arr) = arr
   \<and> spec_stringToBytes (arrayBufferToString (Val arr)) = arr"
proof -
  have bounded: "\<forall>p \<in> set (uint8ArrayToString_parts arr). length p \<le> 1024"
    using loop_bounded [of "[]" arr 0]
    by (simp add: uint8ArrayToString_parts_def chunkSize_def)
  have len: "length (uint8ArrayToString arr) = length arr"
    by (simp add: uint8ArrayToString_eq fromCharCode_def)
  have code: "\<forall>i < length arr. charCodeAt (uint8ArrayToString arr) i = unat (arr ! i)"
  proof (intro allI impI)
    fix i assume "i < length arr"
    have "unat (arr ! i) < 256"
      using unsigned_less [of "arr ! i"] by simp
    with \<open>i < length arr\<close> show "charCodeAt (uint8ArrayToString arr) i = unat (arr ! i)"
      by (simp add: uint8ArrayToString_eq fromCharCode_def charCodeAt_def)
  qed
  have decoded: "spec_stringToBytes (uint8ArrayToString arr) = arr"
    by (simp add: uint8ArrayToString_eq stringToBytes_fromCharCode)
  from bounded len code decoded show ?thesis
    by (simp add: arrayBufferToString_def)
qed

theorem uint8ArrayToString_lossless_witness:
  "list_all (\<lambda>p. length p \<le> 1024) (uint8ArrayToString_parts [1, 2, 255])
   \<and> length (uint8ArrayToString [1, 2, 255]) = 3
   \<and> charCodeAt (uint8ArrayToString [1, 2, 255]) 2 = 255
   \<and> spec_stringToBytes (uint8ArrayToString [1, 2, 255]) = [1, 2, 255]"
  using uint8ArrayToString_lossless [of "[1, 2, 255]"] by (simp add: list_all_iff)

section \<open>Properties of the store\<close>

lemma get_Val [simp]:
  "get (Val k) d s = Inr (case map_of s k of Some v \<Rightarrow> v | None \<Rightarrow> d)"
  by (simp add: get_def validateKey_def Map_has_def Map_get_def split: option.splits)

lemma remove_Val [simp]: "remove (Val k) s = (Inr (), AList.delete k s)"
  by (simp add: remove_def validateKey_def Map_delete_def)

lemma put_Val [simp]:
  "put (Val k) v s = (if is_null_value v then (Inl InvalidArgument, s) else (Inr (), AList.update k v s))"
  by (simp add: put_def validateKeyValue_def Map_set_def)

lemma arrayBufferToString_inj:
  "arrayBufferToString (Val a) = arrayBufferToString (Val b) \<longleftrightarrow> a = b"
  by (simp add: arrayBufferToString_def uint8ArrayToString_inj)

lemma loop_filter:
  "removeAllSessions_loop es p s
   = filter (\<lambda>(k, v). \<not> (startsWith k p \<and> k \<in> fst ` set es)) s"
proof (induction es arbitrary: s)
  case Nil
  then show ?case by simp
next
  case (Cons e es)
  obtain k v where e: "e = (k, v)" by (cases e)
  show ?case
    unfolding e
    by (auto simp: Cons.IH Map_delete_def AList.delete_eq intro!: filter_cong)
qed

lemma removeAllSessions_filter:
  "removeAllSessions r s = filter (\<lambda>(k, v). \<not> startsWith k (SESSION @ to_string r)) s"
  unfolding removeAllSessions_def loop_filter
  by (rule filter_cong) (auto simp: rev_image_eqI)

lemma map_of_filter_key:
  "map_of (filter (\<lambda>(k, v). P k) s) key = (if P key then map_of s key else None)"
  by (induction s) auto

lemma not_session_prefix:
  "\<not> startsWith (IDENTITY @ x) (SESSION @ r)"
  "\<not> startsWith (PREKEY @ x) (SESSION @ r)"
  "\<not> startsWith (SIGNED_KEY @ x) (SESSION @ r)"
  "\<not> startsWith ''registrationId'' (SESSION @ r)"
  by (simp_all add: startsWith_def IDENTITY_def PREKEY_def SIGNED_KEY_def SESSION_def)

text \<open>
  C7. For every store and every peer root address, \<open>removeAllSessions\<close> leaves exactly
  the entries whose key does not start with the session prefix followed by the address,
  in their order and with their values: a key that starts with it is gone, every other key
  reads as before, and so do the identity, pre-key, signed-pre-key and registration-id
  entries, none of whose keys begins with the session prefix.
\<close>

theorem removeAllSessions_exact:
  "removeAllSessions r s = filter (\<lambda>(key, v). \<not> startsWith key (SESSION @ to_string r)) s
   \<and> map_of (removeAllSessions r s) key
       = (if startsWith key (SESSION @ to_string r) then None else map_of s key)
   \<and> map_of (removeAllSessions r s) (IDENTITY @ x) = map_of s (IDENTITY @ x)
   \<and> map_of (removeAllSessions r s) (PREKEY @ x) = map_of s (PREKEY @ x)
   \<and> map_of (removeAllSessions r s) (SIGNED_KEY @ x) = map_of s (SIGNED_KEY @ x)
   \<and> map_of (removeAllSessions r s) ''registrationId'' = map_of s ''registrationId''"
  by (simp add: removeAllSessions_filter map_of_filter_key not_session_prefix)

theorem removeAllSessions_exact_witness:
  "removeAllSessions (Val ''bob'')
     [(''sessionbob.1'', VStr ''r1''), (''sessionalice.1'', VStr ''r2''),
      (''identityKeybob'', VBuf [1]), (''sessionbob.2'', VStr ''r3'')]
   = [(''sessionalice.1'', VStr ''r2''), (''identityKeybob'', VBuf [1])]"
  using removeAllSessions_exact [of "Val ''bob''"
     "[(''sessionbob.1'', VStr ''r1''), (''sessionalice.1'', VStr ''r2''),
       (''identityKeybob'', VBuf [1]), (''sessionbob.2'', VStr ''r3'')]"]
  by (simp add: startsWith_def SESSION_def)

text \<open>
  C9. The contract of the primitives. \<open>get\<close> fails with \<open>InvalidArgument\<close> exactly on a
  nullish key and otherwise returns the stored value, or the default when the key is unset.
  \<open>put\<close> fails with \<open>InvalidArgument\<close> exactly when the key or the value is nullish,
  leaving the store as it was, and otherwise overwrites. \<open>remove\<close> fails only on a
  nullish key and leaves the store unchanged when the key is absent, and so does
  \<open>removePreKey\<close> on an id that was never stored.
\<close>

theorem primitives_contract:
  "(get key d s = Inl InvalidArgument \<longleftrightarrow> is_null key)
   \<and> (\<not> is_null key \<longrightarrow>
        get key d s = Inr (case map_of s (to_string key) of Some x \<Rightarrow> x | None \<Rightarrow> d))
   \<and> (fst (put key v s) = Inl InvalidArgument \<longleftrightarrow> is_null key \<or> is_null_value v)
   \<and> (is_null key \<or> is_null_value v \<longrightarrow> put key v s = (Inl InvalidArgument, s))
   \<and> (\<not> is_null key \<and> \<not> is_null_value v \<longrightarrow>
        put key v s = (Inr (), AList.update (to_string key) v s)
        \<and> map_of (snd (put key v s)) = (map_of s)(to_string key \<mapsto> v))
   \<and> (fst (remove key s) = Inl InvalidArgument \<longleftrightarrow> is_null key)
   \<and> (is_null key \<longrightarrow> remove key s = (Inl InvalidArgument, s))
   \<and> (\<not> is_null key \<longrightarrow>
        remove key s = (Inr (), AList.delete (to_string key) s)
        \<and> map_of (snd (remove key s)) = (map_of s)(to_string key := None))
   \<and> (\<not> is_null key \<and> map_of s (to_string key) = None \<longrightarrow> remove key s = (Inr (), s))
   \<and> (map_of s (PREKEY @ key_id_to_string keyId) = None \<longrightarrow> removePreKey keyId s = (Inr (), s))"
proof -
  have absent: "AList.delete k s = s" if "map_of s k = None" for k
    using that by (simp add: map_of_eq_None_iff)
  have g: "get key d s = (if is_null key then Inl InvalidArgument
             else Inr (case map_of s (to_string key) of Some x \<Rightarrow> x | None \<Rightarrow> d))"
    by (simp add: get_def validateKey_def Map_has_def Map_get_def split: option.splits)
  have p: "put key v s = (if is_null key \<or> is_null_value v then (Inl InvalidArgument, s)
             else (Inr (), AList.update (to_string key) v s))"
    by (simp add: put_def validateKeyValue_def Map_set_def)
  have r: "remove key s = (if is_null key then (Inl InvalidArgument, s)
             else (Inr (), AList.delete (to_string key) s))"
    by (simp add: remove_def validateKey_def Map_delete_def)
  have rp: "removePreKey keyId s = (Inr (), s)"
    if "map_of s (PREKEY @ key_id_to_string keyId) = None"
    using that by (simp add: removePreKey_def absent)
  show ?thesis
    unfolding g p r using rp by (simp add: update_conv' delete_conv' absent)
qed

theorem primitives_contract_witness:
  "\<not> is_null (Val ''a'') \<and> \<not> is_null_value (VNum 2) \<and> is_null (Null :: string nullable)
   \<and> get (Val ''a'') VUndefined [(''a'', VNum 1)] = Inr (VNum 1)
   \<and> get (Val ''b'') VUndefined [(''a'', VNum 1)] = Inr VUndefined
   \<and> get Null VUndefined [(''a'', VNum 1)] = Inl InvalidArgument
   \<and> put (Val ''a'') (VNum 2) [(''a'', VNum 1)] = (Inr (), [(''a'', VNum 2)])
   \<and> put Null (VNum 2) [(''a'', VNum 1)] = (Inl InvalidArgument, [(''a'', VNum 1)])
   \<and> put (Val ''a'') VNull [(''a'', VNum 1)] = (Inl InvalidArgument, [(''a'', VNum 1)])
   \<and> remove Null [(''a'', VNum 1)] = (Inl InvalidArgument, [(''a'', VNum 1)])
   \<and> remove (Val ''a'') [(''a'', VNum 1)] = (Inr (), [])
   \<and> map_of [(''a'', VNum 1)] (to_string (Val ''b'')) = None
   \<and> remove (Val ''b'') [(''a'', VNum 1)] = (Inr (), [(''a'', VNum 1)])
   \<and> map_of [(''a'', VNum 1)] (PREKEY @ key_id_to_string (NumId 5)) = None
   \<and> removePreKey (NumId 5) [(''a'', VNum 1)] = (Inr (), [(''a'', VNum 1)])"
  using primitives_contract [of "Val ''a''" VUndefined "[(''a'', VNum 1)]" "VNum 2" "NumId 5"]
    primitives_contract [of "Val ''b''" VUndefined "[(''a'', VNum 1)]" "VNum 2" "NumId 5"]
    primitives_contract [of Null VUndefined "[(''a'', VNum 1)]" "VNum 2" "NumId 5"]
    primitives_contract [of "Val ''a''" VUndefined "[(''a'', VNum 1)]" VNull "NumId 5"]
  by (simp add: PREKEY_def)

lemma isKeyPairType_truthy: "isKeyPairType k \<Longrightarrow> truthy k \<and> \<not> is_null_value k"
  by (cases k) (simp_all add: isKeyPairType_def)

text \<open>
  C10. Pre-key round trip: for every value that passes \<open>isKeyPairType\<close> (an object whose
  \<open>pubKey\<close> and \<open>privKey\<close> are both array buffers), every key id and every store,
  \<open>storePreKey\<close> succeeds and \<open>loadPreKey\<close> on the resulting store returns that value.
\<close>

theorem storePreKey_loadPreKey:
  "isKeyPairType k \<Longrightarrow>
   fst (storePreKey keyId k s) = Inr () \<and> loadPreKey keyId (snd (storePreKey keyId k s)) = Inr k"
  using isKeyPairType_truthy [of k]
  by (simp add: storePreKey_def loadPreKey_def update_conv')

theorem storePreKey_loadPreKey_witness:
  "isKeyPairType (VObj [(''pubKey'', VBuf [1, 2, 3]), (''privKey'', VBuf [4, 5, 6])])
   \<and> storePreKey (NumId 5) (VObj [(''pubKey'', VBuf [1, 2, 3]), (''privKey'', VBuf [4, 5, 6])]) []
       = (Inr (), [(''Sylens-KeypreKey5'',
                    VObj [(''pubKey'', VBuf [1, 2, 3]), (''privKey'', VBuf [4, 5, 6])])])
   \<and> loadPreKey (NumId 5)
        (snd (storePreKey (NumId 5)
               (VObj [(''pubKey'', VBuf [1, 2, 3]), (''privKey'', VBuf [4, 5, 6])]) []))
       = Inr (VObj [(''pubKey'', VBuf [1, 2, 3]), (''privKey'', VBuf [4, 5, 6])])"
proof -
  have kp: "isKeyPairType (VObj [(''pubKey'', VBuf [1, 2, 3]), (''privKey'', VBuf [4, 5, 6])])"
    by (simp add: isKeyPairType_def isArrayBuffer_def)
  have stored: "storePreKey (NumId 5)
        (VObj [(''pubKey'', VBuf [1, 2, 3]), (''privKey'', VBuf [4, 5, 6])]) []
       = (Inr (), [(''Sylens-KeypreKey5'',
                    VObj [(''pubKey'', VBuf [1, 2, 3]), (''privKey'', VBuf [4, 5, 6])])])"
    by (simp add: storePreKey_def put_def validateKeyValue_def Map_set_def PREKEY_def
        number_to_string_def digits.simps)
  from kp stored storePreKey_loadPreKey [OF kp, of "NumId 5" "[]"] show ?thesis
    by simp
qed

text \<open>
  C3. For every store, every non-null identifier and every candidate key,
  \<open>isTrustedIdentity\<close> returns \<open>true\<close> and leaves the store with the entry under the
  identity prefix followed by the identifier deleted; the read that follows the deletion
  finds nothing, so the comparison of bytes is never reached.
\<close>

theorem isTrustedIdentity_always_true:
  "isTrustedIdentity (Val p) identityKey d s = (Inr True, Map_delete s (IDENTITY @ p))
   \<and> map_of (snd (isTrustedIdentity (Val p) identityKey d s)) (IDENTITY @ p) = None
   \<and> get (Val (IDENTITY @ p)) VUndefined (Map_delete s (IDENTITY @ p)) = Inr VUndefined"
  by (simp add: isTrustedIdentity_def validateKey_def Map_delete_def delete_conv')

theorem isTrustedIdentity_always_true_witness:
  "isTrustedIdentity (Val ''bob'') (Val [9, 9, 9]) RECEIVING
     [(''identityKeyalice'', VBuf [7]), (''identityKeybob'', VBuf [1, 2, 3])]
   = (Inr True, [(''identityKeyalice'', VBuf [7])])"
  using isTrustedIdentity_always_true [of "''bob''" "Val [9, 9, 9]" RECEIVING
     "[(''identityKeyalice'', VBuf [7]), (''identityKeybob'', VBuf [1, 2, 3])]"]
  by (simp add: Map_delete_def IDENTITY_def)

lemma saveIdentity_eq:
  assumes "fromString_getName p = Inr name"
  shows "saveIdentity fromString_getName (Val p) (Val k) s =
     (case map_of s (IDENTITY @ name) of
        None \<Rightarrow> (Inr False, AList.update (IDENTITY @ name) (VBuf k) s)
      | Some existing \<Rightarrow>
          (case existing of
             VBuf old \<Rightarrow> (Inr (old \<noteq> k), AList.update (IDENTITY @ name) (VBuf k) s)
           | _ \<Rightarrow> if truthy existing then (Inl CorruptState, s)
                  else (Inr False, AList.update (IDENTITY @ name) (VBuf k) s)))"
  using assms
  by (auto simp: saveIdentity_def validateKeyValue_def isArrayBuffer_def arrayBufferToString_inj
      split: option.splits js_value.splits)

text \<open>
  C4. Let the identifier parse to an address with name \<open>name\<close>. With no entry under
  the identity prefix followed by \<open>name\<close>, \<open>saveIdentity\<close> records the key there and
  returns \<open>false\<close>; with an array buffer there, it replaces it and returns whether the
  bytes differ. Whenever the call returns, the store it leaves is the old one with the new
  key written under that entry, the result is \<open>true\<close> exactly when an array buffer was
  recorded there before and its bytes differ from the new key, and the same call made
  again returns \<open>false\<close> and changes nothing.
\<close>

theorem saveIdentity_replaced:
  assumes parsed: "fromString_getName p = Inr name"
  shows "(map_of s (IDENTITY @ name) = None \<longrightarrow>
           saveIdentity fromString_getName (Val p) (Val k) s
             = (Inr False, AList.update (IDENTITY @ name) (VBuf k) s))
    \<and> (map_of s (IDENTITY @ name) = Some (VBuf prior) \<longrightarrow>
           saveIdentity fromString_getName (Val p) (Val k) s
             = (Inr (prior \<noteq> k), AList.update (IDENTITY @ name) (VBuf k) s))
    \<and> (saveIdentity fromString_getName (Val p) (Val k) s = (Inr replaced, s') \<longrightarrow>
           s' = AList.update (IDENTITY @ name) (VBuf k) s
           \<and> map_of s' (IDENTITY @ name) = Some (VBuf k)
           \<and> (replaced \<longleftrightarrow> (\<exists>old. map_of s (IDENTITY @ name) = Some (VBuf old) \<and> old \<noteq> k))
           \<and> saveIdentity fromString_getName (Val p) (Val k) s' = (Inr False, s'))"
proof -
  note eq = saveIdentity_eq [of fromString_getName p name, OF parsed]
  have fresh: "saveIdentity fromString_getName (Val p) (Val k) s
        = (Inr False, AList.update (IDENTITY @ name) (VBuf k) s)"
    if "map_of s (IDENTITY @ name) = None"
    unfolding eq using that by simp
  have over: "saveIdentity fromString_getName (Val p) (Val k) s
        = (Inr (prior \<noteq> k), AList.update (IDENTITY @ name) (VBuf k) s)"
    if "map_of s (IDENTITY @ name) = Some (VBuf prior)"
    unfolding eq using that by simp
  have after: "s' = AList.update (IDENTITY @ name) (VBuf k) s
      \<and> map_of s' (IDENTITY @ name) = Some (VBuf k)
      \<and> (replaced \<longleftrightarrow> (\<exists>old. map_of s (IDENTITY @ name) = Some (VBuf old) \<and> old \<noteq> k))
      \<and> saveIdentity fromString_getName (Val p) (Val k) s' = (Inr False, s')"
    if returned: "saveIdentity fromString_getName (Val p) (Val k) s = (Inr replaced, s')"
  proof -
    have s': "s' = AList.update (IDENTITY @ name) (VBuf k) s"
      using returned unfolding eq
      by (auto split: option.splits js_value.splits if_splits)
    have stored: "map_of s' (IDENTITY @ name) = Some (VBuf k)"
      by (simp add: s' update_conv')
    have rep: "replaced \<longleftrightarrow> (\<exists>old. map_of s (IDENTITY @ name) = Some (VBuf old) \<and> old \<noteq> k)"
      using returned unfolding eq
      by (auto split: option.splits js_value.splits if_splits)
    have again: "saveIdentity fromString_getName (Val p) (Val k) s' = (Inr False, s')"
      unfolding saveIdentity_eq [of fromString_getName p name, OF parsed] stored
      by (simp add: s')
    from s' stored rep again show ?thesis by blast
  qed
  from fresh over after show ?thesis by blast
qed

theorem saveIdentity_replaced_witness:
  "address_name ''bob.1'' = Inr ''bob''
   \<and> map_of [] (IDENTITY @ ''bob'') = None
   \<and> saveIdentity address_name (Val ''bob.1'') (Val [1, 2, 3]) []
       = (Inr False, [(''identityKeybob'', VBuf [1, 2, 3])])
   \<and> map_of [(''identityKeybob'', VBuf [1, 2, 3])] (IDENTITY @ ''bob'') = Some (VBuf [1, 2, 3])
   \<and> saveIdentity address_name (Val ''bob.1'') (Val [4, 5, 6]) [(''identityKeybob'', VBuf [1, 2, 3])]
       = (Inr True, [(''identityKeybob'', VBuf [4, 5, 6])])
   \<and> saveIdentity address_name (Val ''bob.1'') (Val [4, 5, 6]) [(''identityKeybob'', VBuf [4, 5, 6])]
       = (Inr False, [(''identityKeybob'', VBuf [4, 5, 6])])"
proof -
  have parsed: "address_name ''bob.1'' = Inr ''bob''"
    by (simp add: address_name_def)
  note rule = saveIdentity_replaced [of address_name "''bob.1''" "''bob''", OF parsed]
  have absent: "map_of [] (IDENTITY @ ''bob'') = None"
    by simp
  have first: "saveIdentity address_name (Val ''bob.1'') (Val [1, 2, 3]) []
       = (Inr False, [(''identityKeybob'', VBuf [1, 2, 3])])"
    using rule [where s = "[]" and k = "[1, 2, 3]", THEN conjunct1] by (simp add: IDENTITY_def)
  have present: "map_of [(''identityKeybob'', VBuf [1, 2, 3])] (IDENTITY @ ''bob'')
       = Some (VBuf [1, 2, 3])"
    by (simp add: IDENTITY_def)
  have second: "saveIdentity address_name (Val ''bob.1'') (Val [4, 5, 6])
       [(''identityKeybob'', VBuf [1, 2, 3])] = (Inr True, [(''identityKeybob'', VBuf [4, 5, 6])])"
    using rule [where s = "[(''identityKeybob'', VBuf [1, 2, 3])]" and prior = "[1, 2, 3]"
        and k = "[4, 5, 6]", THEN conjunct2, THEN conjunct1]
    by (simp add: IDENTITY_def)
  from rule [where s = "[(''identityKeybob'', VBuf [1, 2, 3])]" and k = "[4, 5, 6]"
      and replaced = True and s' = "[(''identityKeybob'', VBuf [4, 5, 6])]",
      THEN conjunct2, THEN conjunct2] second
  have third: "saveIdentity address_name (Val ''bob.1'') (Val [4, 5, 6])
       [(''identityKeybob'', VBuf [4, 5, 6])] = (Inr False, [(''identityKeybob'', VBuf [4, 5, 6])])"
    by blast
  from parsed absent first present second third show ?thesis
    by blast
qed

text \<open>
  C5. Keying mismatch between saving and loading an identity. When the identifier parses
  to a name different from the identifier itself and \<open>saveIdentity\<close> returns, the key is
  recorded under the identity prefix followed by the name: \<open>loadIdentityKey\<close> with the
  name returns it, while \<open>loadIdentityKey\<close> with the full identifier reads an entry the
  call did not touch, hence returns \<open>undefined\<close> on a store that held nothing under the
  full identifier.
\<close>

theorem saveIdentity_keyed_by_name:
  assumes parsed: "fromString_getName identifier = Inr name"
    and differs: "name \<noteq> identifier"
    and returned: "saveIdentity fromString_getName (Val identifier) (Val k) s = (Inr replaced, s')"
  shows "map_of s' (IDENTITY @ name) = Some (VBuf k)
    \<and> loadIdentityKey (Val name) s' = Inr (VBuf k)
    \<and> map_of s' (IDENTITY @ identifier) = map_of s (IDENTITY @ identifier)
    \<and> loadIdentityKey (Val identifier) s' = loadIdentityKey (Val identifier) s
    \<and> (map_of s (IDENTITY @ identifier) = None \<longrightarrow>
          loadIdentityKey (Val identifier) s' = Inr VUndefined)"
proof -
  have s': "s' = AList.update (IDENTITY @ name) (VBuf k) s"
    using returned unfolding saveIdentity_eq [of fromString_getName "identifier" name, OF parsed]
    by (auto split: option.splits js_value.splits if_splits)
  have stored: "map_of s' (IDENTITY @ name) = Some (VBuf k)"
    by (simp add: s' update_conv')
  have frame: "map_of s' (IDENTITY @ identifier) = map_of s (IDENTITY @ identifier)"
    using differs by (simp add: s' update_conv')
  have load_name: "loadIdentityKey (Val name) s' = Inr (VBuf k)"
    by (simp add: loadIdentityKey_def validateKey_def stored isArrayBuffer_def)
  have load_same: "loadIdentityKey (Val identifier) s' = loadIdentityKey (Val identifier) s"
    by (simp add: loadIdentityKey_def validateKey_def frame)
  have load_absent: "loadIdentityKey (Val identifier) s = Inr VUndefined"
    if "map_of s (IDENTITY @ identifier) = None"
    using that by (simp add: loadIdentityKey_def validateKey_def)
  from stored frame load_name load_same load_absent show ?thesis by simp
qed

theorem saveIdentity_keyed_by_name_witness:
  "address_name ''bob.1'' = Inr ''bob'' \<and> ''bob'' \<noteq> ''bob.1''
   \<and> saveIdentity address_name (Val ''bob.1'') (Val [1, 2, 3]) []
       = (Inr False, [(''identityKeybob'', VBuf [1, 2, 3])])
   \<and> loadIdentityKey (Val ''bob'') [(''identityKeybob'', VBuf [1, 2, 3])] = Inr (VBuf [1, 2, 3])
   \<and> loadIdentityKey (Val ''bob.1'') [(''identityKeybob'', VBuf [1, 2, 3])] = Inr VUndefined"
proof -
  have parsed: "address_name ''bob.1'' = Inr ''bob''"
    by (simp add: address_name_def)
  have differs: "''bob'' \<noteq> ''bob.1''"
    by simp
  have returned: "saveIdentity address_name (Val ''bob.1'') (Val [1, 2, 3]) []
       = (Inr False, [(''identityKeybob'', VBuf [1, 2, 3])])"
    by (simp add: saveIdentity_eq [of address_name "''bob.1''" "''bob''", OF parsed] IDENTITY_def)
  have absent: "map_of [] (IDENTITY @ ''bob.1'') = None"
    by simp
  from saveIdentity_keyed_by_name [OF parsed differs returned] absent
  have "loadIdentityKey (Val ''bob'') [(''identityKeybob'', VBuf [1, 2, 3])] = Inr (VBuf [1, 2, 3])
    \<and> loadIdentityKey (Val ''bob.1'') [(''identityKeybob'', VBuf [1, 2, 3])] = Inr VUndefined"
    by blast
  with parsed differs returned show ?thesis
    by blast
qed

text \<open>
  C6, as amended. A typed read fails with \<open>CorruptState\<close> whenever the value present under
  its key fails the shape check and, for the four reads guarded by a truthiness test
  (\<open>getIdentityKeyPair\<close>, \<open>loadPreKey\<close>, \<open>loadSignedPreKey\<close>, \<open>loadIdentityKey\<close>), is
  truthy. Those four read a falsy stored value (\<open>0\<close>, \<open>NaN\<close>, the empty string) as
  absent and return \<open>undefined\<close>.
\<close>

theorem typed_read_corrupt:
  "(map_of s IDENTITY = Some v \<and> truthy v \<and> \<not> isKeyPairType v
      \<longrightarrow> getIdentityKeyPair s = Inl CorruptState)
   \<and> (map_of s ''registrationId'' = Some v \<and> v \<noteq> VUndefined \<and> typeof v \<noteq> TNumber
      \<longrightarrow> getLocalRegistrationId s = Inl CorruptState)
   \<and> (map_of s (PREKEY @ key_id_to_string keyId) = Some v \<and> truthy v \<and> \<not> isKeyPairType v
      \<longrightarrow> loadPreKey keyId s = Inl CorruptState)
   \<and> (map_of s (SIGNED_KEY @ key_id_to_string keyId) = Some v \<and> truthy v \<and> \<not> isKeyPairType v
      \<longrightarrow> loadSignedPreKey keyId s = Inl CorruptState)
   \<and> (map_of s (SESSION @ to_string peer) = Some v \<and> v \<noteq> VUndefined \<and> typeof v \<noteq> TString
      \<longrightarrow> loadSession peer s = Inl CorruptState)
   \<and> (map_of s (IDENTITY @ p) = Some v \<and> truthy v \<and> \<not> isArrayBuffer v
      \<longrightarrow> loadIdentityKey (Val p) s = Inl CorruptState)
   \<and> (map_of s IDENTITY = Some v \<and> \<not> truthy v \<longrightarrow> getIdentityKeyPair s = Inr VUndefined)
   \<and> (map_of s (PREKEY @ key_id_to_string keyId) = Some v \<and> \<not> truthy v
      \<longrightarrow> loadPreKey keyId s = Inr VUndefined)
   \<and> (map_of s (SIGNED_KEY @ key_id_to_string keyId) = Some v \<and> \<not> truthy v
      \<longrightarrow> loadSignedPreKey keyId s = Inr VUndefined)
   \<and> (map_of s (IDENTITY @ p) = Some v \<and> \<not> truthy v
      \<longrightarrow> loadIdentityKey (Val p) s = Inr VUndefined)"
proof -
  have undef: "typeof v = TUndefined \<longleftrightarrow> v = VUndefined"
    by (cases v) simp_all
  show ?thesis
    by (simp add: getIdentityKeyPair_def getLocalRegistrationId_def loadPreKey_def
        loadSignedPreKey_def loadSession_def loadIdentityKey_def validateKey_def undef)
qed

theorem typed_read_corrupt_witness:
  "truthy (VStr ''x'') \<and> \<not> isKeyPairType (VStr ''x'') \<and> \<not> isArrayBuffer (VStr ''x'')
   \<and> getIdentityKeyPair [(''identityKey'', VStr ''x'')] = Inl CorruptState
   \<and> getLocalRegistrationId [(''registrationId'', VStr ''x'')] = Inl CorruptState
   \<and> loadPreKey (NumId 7) [(''Sylens-KeypreKey7'', VStr ''x'')] = Inl CorruptState
   \<and> loadSignedPreKey (NumId 7) [(''Sylens-KeysignedKey7'', VStr ''x'')] = Inl CorruptState
   \<and> loadSession (Val ''bob.1'') [(''sessionbob.1'', VNum 3)] = Inl CorruptState
   \<and> loadIdentityKey (Val ''bob'') [(''identityKeybob'', VStr ''x'')] = Inl CorruptState
   \<and> getIdentityKeyPair [(''identityKey'', VNum 0)] = Inr VUndefined
   \<and> loadPreKey (NumId 7) [(''Sylens-KeypreKey7'', VNum 0)] = Inr VUndefined
   \<and> loadSignedPreKey (NumId 7) [(''Sylens-KeysignedKey7'', VNum 0)] = Inr VUndefined
   \<and> loadIdentityKey (Val ''bob'') [(''identityKeybob'', VNum 0)] = Inr VUndefined"
proof -
  have seven: "key_id_to_string (NumId 7) = ''7''"
    by (simp add: number_to_string_def digits.simps)
  have shape: "truthy (VStr ''x'') \<and> \<not> isKeyPairType (VStr ''x'') \<and> \<not> isArrayBuffer (VStr ''x'')"
    by (simp add: isKeyPairType_def isArrayBuffer_def)
  note corrupt = typed_read_corrupt [where v = "VStr ''x''" and keyId = "NumId 7" and p = "''bob''"]
  note number = typed_read_corrupt [where v = "VNum 3" and peer = "Val ''bob.1''"]
  note falsy = typed_read_corrupt [where v = "VNum 0" and keyId = "NumId 7" and p = "''bob''"]
  have c1: "getIdentityKeyPair [(''identityKey'', VStr ''x'')] = Inl CorruptState"
    using shape corrupt [where s = "[(''identityKey'', VStr ''x'')]"]
    by (simp add: IDENTITY_def)
  have c2: "getLocalRegistrationId [(''registrationId'', VStr ''x'')] = Inl CorruptState"
    using corrupt [where s = "[(''registrationId'', VStr ''x'')]"]
    by simp
  have c3: "loadPreKey (NumId 7) [(''Sylens-KeypreKey7'', VStr ''x'')] = Inl CorruptState"
    using shape seven corrupt [where s = "[(''Sylens-KeypreKey7'', VStr ''x'')]"]
    by (simp add: PREKEY_def)
  have c4: "loadSignedPreKey (NumId 7) [(''Sylens-KeysignedKey7'', VStr ''x'')] = Inl CorruptState"
    using shape seven corrupt [where s = "[(''Sylens-KeysignedKey7'', VStr ''x'')]"]
    by (simp add: SIGNED_KEY_def)
  have c5: "loadSession (Val ''bob.1'') [(''sessionbob.1'', VNum 3)] = Inl CorruptState"
    using number [where s = "[(''sessionbob.1'', VNum 3)]"]
    by (simp add: SESSION_def)
  have c6: "loadIdentityKey (Val ''bob'') [(''identityKeybob'', VStr ''x'')] = Inl CorruptState"
    using shape corrupt [where s = "[(''identityKeybob'', VStr ''x'')]"]
    by (simp add: IDENTITY_def)
  have f1: "getIdentityKeyPair [(''identityKey'', VNum 0)] = Inr VUndefined"
    using falsy [where s = "[(''identityKey'', VNum 0)]"]
    by (simp add: IDENTITY_def)
  have f2: "loadPreKey (NumId 7) [(''Sylens-KeypreKey7'', VNum 0)] = Inr VUndefined"
    using seven falsy [where s = "[(''Sylens-KeypreKey7'', VNum 0)]"]
    by (simp add: PREKEY_def)
  have f3: "loadSignedPreKey (NumId 7) [(''Sylens-KeysignedKey7'', VNum 0)] = Inr VUndefined"
    using seven falsy [where s = "[(''Sylens-KeysignedKey7'', VNum 0)]"]
    by (simp add: SIGNED_KEY_def)
  have f4: "loadIdentityKey (Val ''bob'') [(''identityKeybob'', VNum 0)] = Inr VUndefined"
    using falsy [where s = "[(''identityKeybob'', VNum 0)]"]
    by (simp add: IDENTITY_def)
  from shape c1 c2 c3 c4 c5 c6 f1 f2 f3 f4 show ?thesis
    by blast
qed

text \<open>
  C6 as stated fails: the number \<open>0\<close> stored under the key of pre-key 7 is present and
  is no key pair, and \<open>loadPreKey\<close> returns \<open>undefined\<close> instead of failing.
\<close>

theorem typed_read_falsy_counterexample:
  "map_of [(''Sylens-KeypreKey7'', VNum 0)] (PREKEY @ key_id_to_string (NumId 7)) = Some (VNum 0)
   \<and> \<not> isKeyPairType (VNum 0)
   \<and> loadPreKey (NumId 7) [(''Sylens-KeypreKey7'', VNum 0)] = Inr VUndefined
   \<and> loadPreKey (NumId 7) [(''Sylens-KeypreKey7'', VNum 0)] \<noteq> Inl CorruptState"
  by (simp add: loadPreKey_def PREKEY_def number_to_string_def digits.simps isKeyPairType_def)

text \<open>
  C1 at a concrete input. After \<open>saveIdentity\<close> has recorded the key \<open>[1, 2, 3]\<close> for
  \<open>bob.1\<close> in an empty store, \<open>isTrustedIdentity\<close> with the different key
  \<open>[9, 9, 9]\<close> returns \<open>true\<close>, whether it is asked with the full identifier or with
  the name under which the key was recorded, and also when the key sits under the full
  identifier.
\<close>

theorem isTrustedIdentity_accepts_changed_key:
  "saveIdentity address_name (Val ''bob.1'') (Val [1, 2, 3]) []
     = (Inr False, [(''identityKeybob'', VBuf [1, 2, 3])])
   \<and> isTrustedIdentity (Val ''bob.1'') (Val [9, 9, 9]) RECEIVING [(''identityKeybob'', VBuf [1, 2, 3])]
     = (Inr True, [(''identityKeybob'', VBuf [1, 2, 3])])
   \<and> isTrustedIdentity (Val ''bob'') (Val [9, 9, 9]) RECEIVING [(''identityKeybob'', VBuf [1, 2, 3])]
     = (Inr True, [])
   \<and> isTrustedIdentity (Val ''bob.1'') (Val [9, 9, 9]) RECEIVING [(''identityKeybob.1'', VBuf [1, 2, 3])]
     = (Inr True, [])"
  by (simp add: saveIdentity_def isTrustedIdentity_def address_name_def validateKeyValue_def
      validateKey_def IDENTITY_def isArrayBuffer_def Map_delete_def)

text \<open>
  C2 at a concrete input. \<open>isTrustedIdentity\<close> for \<open>bob\<close> on a store that holds bob's
  trusted key leaves the store empty: the check deletes the entry.
\<close>

theorem isTrustedIdentity_deletes_entry:
  "isTrustedIdentity (Val ''bob'') (Val [1, 2, 3]) SENDING [(''identityKeybob'', VBuf [1, 2, 3])]
     = (Inr True, [])
   \<and> snd (isTrustedIdentity (Val ''bob'') (Val [1, 2, 3]) SENDING [(''identityKeybob'', VBuf [1, 2, 3])])
     \<noteq> [(''identityKeybob'', VBuf [1, 2, 3])]"
  by (simp add: isTrustedIdentity_def validateKey_def IDENTITY_def Map_delete_def)

end
